theory Spec2Isabelle
  imports Complex_Main
begin

section \<open>Path checks over mediated transfers (tests/integration/test_e2e.py)\<close>

text \<open>
  The test module checks the messages sent along the hops of one mediated transfer.
  A message of class \<open>MediatedTransfer\<close> carries the fields the helpers read; any
  other message class is kept as \<open>OtherMessage\<close> with its class name, since the
  helper only asks whether a message is a \<open>MediatedTransfer\<close>.
  Addresses, hashlocks and token addresses are byte strings; identifiers, amounts
  and block numbers are Python integers.  The field \<open>identifier\<close> is written
  \<open>msg_identifier\<close>: the source name is reserved in Isabelle.
\<close>

record Lock =
  amount :: int
  expiration :: int
  hashlock :: string

record mediated_transfer =
  msg_identifier :: int
  token :: string
  lock :: Lock
  target :: string
  initiator :: string
  recipient :: string
  sender :: string

datatype message = MediatedTransfer mediated_transfer | OtherMessage string

text \<open>A failed \<open>assert\<close> raises \<open>AssertionError\<close> with the message of the statement.\<close>

datatype assertion_error = AssertionError string

text \<open>
  \<open>mediated_transfer_almost_equal(first, second)\<close>: six asserts in the order of the
  source; the first one that fails raises.
\<close>

definition mediated_transfer_almost_equal ::
  "mediated_transfer \<Rightarrow> mediated_transfer \<Rightarrow> assertion_error + unit" where
  "mediated_transfer_almost_equal first second =
     (if msg_identifier first \<noteq> msg_identifier second
        then Inl (AssertionError ''identifier doesn't match'')
      else if token first \<noteq> token second
        then Inl (AssertionError ''token address doesn't match'')
      else if amount (lock first) \<noteq> amount (lock second)
        then Inl (AssertionError ''lock amount doesn't match'')
      else if hashlock (lock first) \<noteq> hashlock (lock second)
        then Inl (AssertionError ''lock hashlock doesn't match'')
      else if target first \<noteq> target second
        then Inl (AssertionError ''target doesn't match'')
      else if initiator first \<noteq> initiator second
        then Inl (AssertionError ''initiator doesn't match'')
      else Inr ())"

text \<open>
  The body of the \<open>for first, second in zip(transfers[:-1], transfers[1:])\<close> loop for
  one pair, then the loop itself over the zipped pairs.
\<close>

definition check_pair ::
  "mediated_transfer \<Rightarrow> mediated_transfer \<Rightarrow> assertion_error + unit" where
  "check_pair first second =
     (case mediated_transfer_almost_equal first second of
        Inl e \<Rightarrow> Inl e
      | Inr _ \<Rightarrow>
          if recipient first \<noteq> sender second
            then Inl (AssertionError ''transfers are out-of-order'')
          else if \<not> expiration (lock first) > expiration (lock second)
            then Inl (AssertionError ''lock expiration is not decreasing'')
          else Inr ())"

fun check_pairs ::
  "(mediated_transfer \<times> mediated_transfer) list \<Rightarrow> assertion_error + unit" where
  "check_pairs [] = Inr ()"
| "check_pairs ((first, second) # rest) =
     (case check_pair first second of
        Inl e \<Rightarrow> Inl e
      | Inr _ \<Rightarrow> check_pairs rest)"

fun is_MediatedTransfer :: "message \<Rightarrow> bool" where
  "is_MediatedTransfer (MediatedTransfer _) = True"
| "is_MediatedTransfer (OtherMessage _) = False"

text \<open>The fields of the messages that passed the \<open>isinstance\<close> check.\<close>

fun the_transfers :: "message list \<Rightarrow> mediated_transfer list" where
  "the_transfers [] = []"
| "the_transfers (MediatedTransfer t # ms) = t # the_transfers ms"
| "the_transfers (OtherMessage _ # ms) = the_transfers ms"

text \<open>
  \<open>assert_path_mediated_transfer(*transfers)\<close>: all messages must be
  \<open>MediatedTransfer\<close>s, then every adjacent pair is checked.  \<open>transfers[:-1]\<close> is
  \<open>butlast\<close> and \<open>transfers[1:]\<close> is \<open>tl\<close>; both are empty on the empty tuple.
\<close>

definition assert_path_mediated_transfer :: "message list \<Rightarrow> assertion_error + unit" where
  "assert_path_mediated_transfer transfers =
     (if \<not> list_all is_MediatedTransfer transfers
        then Inl (AssertionError ''all transfers must be of type MediatedTransfer'')
      else check_pairs (zip (butlast (the_transfers transfers)) (tl (the_transfers transfers))))"

text \<open>
  The two messages of the path in \<open>test_fullnetwork\<close>: App0 sends to App3, App3
  forwards to App2, with concrete values for the fields.
\<close>

definition transfer_0_3 :: mediated_transfer where
  "transfer_0_3 =
     \<lparr>msg_identifier = 1, token = ''token'',
      lock = \<lparr>amount = 5, expiration = 40, hashlock = ''hashlock''\<rparr>,
      target = ''app2'', initiator = ''app0'', recipient = ''app3'', sender = ''app0''\<rparr>"

definition transfer_3_2 :: mediated_transfer where
  "transfer_3_2 =
     \<lparr>msg_identifier = 1, token = ''token'',
      lock = \<lparr>amount = 5, expiration = 30, hashlock = ''hashlock''\<rparr>,
      target = ''app2'', initiator = ''app0'', recipient = ''app2'', sender = ''app3''\<rparr>"

section \<open>Searching a log for an entry (tests/integration/test_e2e.py)\<close>

text \<open>
  \<open>must_contain_entry\<close> walks a list of state changes or events and compares
  attributes of each entry with a dictionary of expected values.  The values the
  test module passes are addresses, secrets and hashlocks (byte strings), amounts and
  timeouts (integers), \<open>None\<close>, and nested dictionaries; the entries are objects
  whose attributes are such values or further objects (a route, a transfer).

  An object is given by the classes it is an instance of (its class followed by the
  base classes) and by its attributes, a dictionary from names to values.  The
  attributes that Python's builtin values carry themselves (methods and the like)
  are not part of the model: looking any name up on \<open>None\<close>, an integer or a
  string raises \<open>AttributeError\<close>.  The source parameter \<open>type_\<close> is written
  \<open>type'\<close>.
\<close>

datatype prim = PNone | PInt int | PStr string

datatype pyval = Prim prim | Obj "string list" "(string \<times> pyval) list"

text \<open>
  The dictionary \<open>data\<close>, as the list of its items in the order \<open>iteritems()\<close>
  yields them: a value is a nested dictionary or a plain value.
\<close>

datatype expected = EVal prim | EDict "(string \<times> expected) list"

datatype attribute_error = AttributeError string

fun getattr :: "pyval \<Rightarrow> string \<Rightarrow> attribute_error + pyval" where
  "getattr (Obj mro attrs) name =
     (case map_of attrs name of
        None \<Rightarrow> Inl (AttributeError name)
      | Some v \<Rightarrow> Inr v)"
| "getattr (Prim p) name = Inl (AttributeError name)"


text \<open>
  The helper was written for Python 2: it walks the dictionary with
  \<open>data.iteritems()\<close>.  Python 3, which other modules of the repository need
  (the console uses \<open>super()\<close> without arguments), has no such method on \<open>dict\<close>,
  and the call raises \<open>AttributeError\<close> for every dictionary, the empty one
  included.  The interpreter is therefore a parameter of the model.
\<close>

datatype python = Python2 | Python3

fun iteritems ::
  "python \<Rightarrow> (string \<times> expected) list \<Rightarrow> attribute_error + (string \<times> expected) list" where
  "iteritems Python2 d = Inr d"
| "iteritems Python3 d = Inl (AttributeError ''iteritems'')"

text \<open>
  \<open>check_nested_attrs(item, data)\<close> calls \<open>data.iteritems()\<close> and loops over the
  items (\<open>check_loop\<close>).  Each round reads the attribute with \<open>getattr\<close> (which
  may raise), then either descends into a nested dictionary, by a recursive call of
  \<open>check_nested_attrs\<close>, or compares with \<open>!=\<close>; the first mismatch returns
  \<open>False\<close>, the end of the loop returns \<open>True\<close>.
\<close>

function check_nested_attrs ::
    "python \<Rightarrow> pyval \<Rightarrow> (string \<times> expected) list \<Rightarrow> attribute_error + bool"
  and check_loop ::
    "python \<Rightarrow> pyval \<Rightarrow> (string \<times> expected) list \<Rightarrow> attribute_error + bool" where
  "check_nested_attrs py item data =
     (case iteritems py data of
        Inl e \<Rightarrow> Inl e
      | Inr items \<Rightarrow> check_loop py item items)"
| "check_loop py item [] = Inr True"
| "check_loop py item ((name, value) # rest) =
     (case getattr item name of
        Inl e \<Rightarrow> Inl e
      | Inr item_value \<Rightarrow>
          (case value of
             EDict d \<Rightarrow>
               (case check_nested_attrs py item_value d of
                  Inl e \<Rightarrow> Inl e
                | Inr ok \<Rightarrow> if \<not> ok then Inr False else check_loop py item rest)
           | EVal v \<Rightarrow>
               if item_value \<noteq> Prim v then Inr False else check_loop py item rest))"
  by pat_completeness auto
termination
  by (relation "measure (\<lambda>x. case x of
        Inl (py, item, data) \<Rightarrow> 2 * size_list (size_prod (\<lambda>_. 0) size) data + 1
      | Inr (py, item, items) \<Rightarrow> 2 * size_list (size_prod (\<lambda>_. 0) size) items)")
     (auto elim: iteritems.elims)


subsection \<open>The structural subset match, as the specification words it\<close>

text \<open>
  The specification describes the helper as a structural subset match: an element
  matches when its attributes recursively equal every (name, value) pair of the
  dictionary, nested dictionaries being matched recursively against the attribute's
  value.  \<open>attr\<close> is the attribute dictionary of a value (empty for the builtin
  values) and \<open>subset_match\<close> the match.
\<close>

fun attr :: "pyval \<Rightarrow> string \<Rightarrow> pyval option" where
  "attr (Obj mro attrs) name = map_of attrs name"
| "attr (Prim p) name = None"

function subset_match :: "pyval \<Rightarrow> (string \<times> expected) list \<Rightarrow> bool" where
  "subset_match item [] = True"
| "subset_match item ((name, value) # rest) =
     ((case attr item name of
         None \<Rightarrow> False
       | Some item_value \<Rightarrow>
           (case value of
              EVal v \<Rightarrow> item_value = Prim v
            | EDict d \<Rightarrow> subset_match item_value d))
      \<and> subset_match item rest)"
  by pat_completeness auto
termination
  by (relation "measure (\<lambda>(item, data). size_list (size_prod (\<lambda>_. 0) size) data)") auto







section \<open>Flat lists of the REST API (api/objects.py)\<close>

text \<open>
  \<open>FlatList\<close> subclasses \<open>list\<close> and adds the read-only property \<open>data\<close>, which
  returns \<open>list(self)\<close>.  The five list classes of the API subclass \<open>FlatList\<close>
  with an empty body, so they inherit the property unchanged.

  Lists are mutable objects, and the property hands out a new one.  The store holds
  the list objects that exist: the object at address \<open>a\<close> is the \<open>a\<close>-th entry, and
  a new object is put at the end.  A list object is its class and its elements (the
  references it holds, of any type \<open>'a\<close>).
\<close>

datatype list_class =
  PyList | FlatList | ChannelList | TokensList | AddressList | PartnersPerTokenList | EventsList

type_synonym 'a list_object = "list_class \<times> 'a list"

type_synonym 'a store = "'a list_object list"

definition deref :: "'a store \<Rightarrow> nat \<Rightarrow> 'a list_object option" where
  "deref h a = (if a < length h then Some (h ! a) else None)"

definition alloc :: "'a store \<Rightarrow> 'a list_object \<Rightarrow> 'a store \<times> nat" where
  "alloc h obj = (h @ [obj], length h)"

text \<open>\<open>isinstance(x, FlatList)\<close>: the class itself and its five subclasses.\<close>

fun is_FlatList :: "list_class \<Rightarrow> bool" where
  "is_FlatList PyList = False"
| "is_FlatList FlatList = True"
| "is_FlatList ChannelList = True"
| "is_FlatList TokensList = True"
| "is_FlatList AddressList = True"
| "is_FlatList PartnersPerTokenList = True"
| "is_FlatList EventsList = True"

text \<open>
  \<open>list(xs)\<close> builds a new plain list with the elements of \<open>xs\<close>, in order, and
  returns its address together with the store that now holds it.
\<close>

definition list_of :: "'a store \<Rightarrow> nat \<Rightarrow> ('a store \<times> nat) option" where
  "list_of h xs =
     (case deref h xs of
        None \<Rightarrow> None
      | Some (c, elems) \<Rightarrow> Some (alloc h (PyList, elems)))"

text \<open>
  The property \<open>data\<close> of \<open>FlatList\<close>, read on the object at address \<open>self\<close>.  It is defined by
  \<open>FlatList\<close>, so it exists on instances of \<open>FlatList\<close> only; \<open>None\<close> stands for
  the inputs on which the property does not run (no object at the address, or a
  plain \<open>list\<close>, which has no such attribute).
\<close>

definition FlatList_data :: "'a store \<Rightarrow> nat \<Rightarrow> ('a store \<times> nat) option" where
  "FlatList_data h self =
     (case deref h self of
        None \<Rightarrow> None
      | Some (c, elems) \<Rightarrow> if is_FlatList c then list_of h self else None)"

section \<open>Waiting for a contract (ui/console.py)\<close>

text \<open>
  \<open>ConsoleTools.wait_for_contract(contract_address_hex, timeout=None)\<close> polls the
  chain for the code at an address.  What the method reads from outside is given by
  two sequences: \<open>getCode k\<close> is the byte string the \<open>k\<close>-th query
  \<open>web3.eth.getCode\<close> returns and \<open>time_time k\<close> is what the \<open>k\<close>-th call of
  \<open>time.time()\<close> returns, both counted from 0.  Readings of the clock are real
  numbers here (the rounding of floating point addition is not modelled), and so is
  the timeout; \<open>None\<close> is the default.  \<open>gevent.sleep(0.5)\<close> only lets time pass.

  The condition \<open>timeout and start_time + timeout > current_time\<close> tests the
  truth value of \<open>timeout\<close> first: \<open>None\<close> and \<open>0\<close> are false.
\<close>

definition timeout_guard :: "real option \<Rightarrow> real \<Rightarrow> real \<Rightarrow> bool" where
  "timeout_guard timeout start_time current_time =
     (case timeout of
        None \<Rightarrow> False
      | Some t \<Rightarrow> t \<noteq> 0 \<and> start_time + t > current_time)"

text \<open>
  The \<open>while len(result) == 0\<close> loop, after \<open>k + 1\<close> queries and \<open>k + 2\<close>
  readings of the clock.  The loop may run forever (no timeout, code never mined):
  then the value is \<open>None\<close>.  After the loop the method returns \<open>len(result) > 0\<close>.
\<close>

partial_function (option) wait_loop ::
  "(nat \<Rightarrow> string) \<Rightarrow> (nat \<Rightarrow> real) \<Rightarrow> real option \<Rightarrow> real \<Rightarrow> nat \<Rightarrow> string \<Rightarrow> real
     \<Rightarrow> bool option" where
  "wait_loop getCode time_time timeout start_time k result current_time =
     (if length result = 0
        then (if timeout_guard timeout start_time current_time
                then Some False
              else wait_loop getCode time_time timeout start_time (Suc k)
                     (getCode (Suc k)) (time_time (Suc (Suc k))))
      else Some (length result > 0))"

text \<open>
  The method: \<open>start_time = time.time()\<close>, the first query, then
  \<open>current_time = time.time()\<close> and the loop.
\<close>

definition wait_for_contract ::
  "(nat \<Rightarrow> string) \<Rightarrow> (nat \<Rightarrow> real) \<Rightarrow> real option \<Rightarrow> bool option" where
  "wait_for_contract getCode time_time timeout =
     wait_loop getCode time_time timeout (time_time 0) 0 (getCode 0) (time_time 1)"

text \<open>
  A chain on which the contract is mined between the first and the second query, a
  clock that advances one second per reading, and a clock that was set back after
  the first reading.
\<close>

definition mined_after_first_query :: "nat \<Rightarrow> string" where
  "mined_after_first_query k = (if k = 0 then [] else ''6080'')"

definition ticking_clock :: "nat \<Rightarrow> real" where
  "ticking_clock k = 100 + real k"

definition clock_set_back :: "nat \<Rightarrow> real" where
  "clock_set_back k = (if k = 0 then 100 else 90)"

section \<open>Channel ledger\<close>

text \<open>
  The channel ledger is not among the source files at hand (only tests and callers
  of it are), so its data and operations are written from the specification,
  sections 3 (data model), 4.1 (contract) and 7 (error handling).  Amounts, nonces
  and block heights are natural numbers; hashlocks, addresses and signatures are
  byte strings.
\<close>

text \<open>Modelled from the spec: the record \<open>Lock\<close> of the channel ledger,
  \<open>{hashlock, amount, expiration(block_height)}\<close>; the ledger's source is missing.\<close>

record pending_lock =
  lk_hashlock :: string
  lk_amount :: nat
  lk_expiration :: nat

text \<open>Modelled from the spec: the record \<open>BalanceProof\<close>,
  \<open>{channel_identifier, nonce, transferred_amount, locksroot, signature}\<close>; the
  ledger's source is missing.\<close>

record balance_proof =
  bp_channel_identifier :: nat
  bp_nonce :: nat
  bp_transferred_amount :: nat
  bp_locksroot :: string
  bp_signature :: string

datatype channel_state = Unopened | Opened | Closed | Settled

text \<open>The two participants of a channel, as senders of balance proofs.\<close>

datatype participant = Self | Partner

text \<open>Modelled from the spec: the record \<open>Channel\<close> with its twelve fields;
  \<open>pending_locks\<close>, a mapping from hashlock to lock, is the list of the pending
  locks, which holds at most one lock per hashlock.  The ledger's source is missing.\<close>

record channel =
  ch_channel_identifier :: nat
  ch_token_address :: string
  ch_participant_self :: string
  ch_participant_partner :: string
  ch_settle_timeout :: nat
  ch_reveal_timeout :: nat
  own_deposit :: nat
  partner_deposit :: nat
  own_balance_proof :: balance_proof
  partner_balance_proof :: balance_proof
  pending_locks :: "pending_lock list"
  ch_state :: channel_state

datatype ledger_error =
  InvalidSignature | StaleNonce | OverspendDeposit
  | DuplicateHashlock | InsufficientBalance | UnknownHashlock

text \<open>Modelled from the spec: the sum of the amounts of the pending locks and the
  total escrowed value \<open>own_deposit + partner_deposit\<close> of the channel invariant;
  the ledger's source is missing.\<close>

definition locked_amount :: "channel \<Rightarrow> nat" where
  "locked_amount c = sum_list (map lk_amount (pending_locks c))"

definition total_deposit :: "channel \<Rightarrow> nat" where
  "total_deposit c = own_deposit c + partner_deposit c"

text \<open>Modelled from the spec: the balance proof the channel records for a sender
  (\<open>own_balance_proof\<close> for the node itself, \<open>partner_balance_proof\<close> for the
  partner) and its replacement; the ledger's source is missing.\<close>

fun recorded_proof :: "channel \<Rightarrow> participant \<Rightarrow> balance_proof" where
  "recorded_proof c Self = own_balance_proof c"
| "recorded_proof c Partner = partner_balance_proof c"

fun record_proof :: "channel \<Rightarrow> participant \<Rightarrow> balance_proof \<Rightarrow> channel" where
  "record_proof c Self proof = c\<lparr>own_balance_proof := proof\<rparr>"
| "record_proof c Partner proof = c\<lparr>partner_balance_proof := proof\<rparr>"

text \<open>Modelled from the spec: \<open>apply_balance_proof(channel, proof, sender)\<close>, whose
  source is missing.  It fails with \<open>InvalidSignature\<close>, \<open>StaleNonce\<close> or
  \<open>OverspendDeposit\<close> when an invariant of the data model would be violated: the
  signature must verify against the sender (\<open>verify\<close> is the signature check of
  the cryptographic adapter); the nonce must be strictly greater than the last
  accepted nonce of that sender and the transferred amount must not decrease (one
  invariant of the balance proof, both parts answered with \<open>StaleNonce\<close>); the
  transferred amount and the pending locks together must not exceed the total
  deposit.  Otherwise it records the proof for the sender and returns the delta in
  transferred amount.  (The parameter \<open>sender\<close> is written \<open>sender'\<close>.)\<close>

definition apply_balance_proof ::
  "(balance_proof \<Rightarrow> participant \<Rightarrow> bool) \<Rightarrow> channel \<Rightarrow> balance_proof \<Rightarrow> participant
     \<Rightarrow> ledger_error + channel \<times> nat" where
  "apply_balance_proof verify c proof sender' =
     (let last = recorded_proof c sender' in
      if \<not> verify proof sender' then Inl InvalidSignature
      else if bp_nonce proof \<le> bp_nonce last
              \<or> bp_transferred_amount proof < bp_transferred_amount last
        then Inl StaleNonce
      else if bp_transferred_amount proof + locked_amount c > total_deposit c
        then Inl OverspendDeposit
      else Inr (record_proof c sender' proof,
                bp_transferred_amount proof - bp_transferred_amount last))"

text \<open>Modelled from the spec: \<open>add_lock(channel, lock)\<close>, whose source is missing.
  It fails with \<open>DuplicateHashlock\<close> when a lock with the hashlock is pending and
  with \<open>InsufficientBalance\<close> when the lock would violate the deposit invariant.\<close>

definition add_lock :: "channel \<Rightarrow> pending_lock \<Rightarrow> ledger_error + channel" where
  "add_lock c l =
     (if lk_hashlock l \<in> lk_hashlock ` set (pending_locks c) then Inl DuplicateHashlock
      else if bp_transferred_amount (own_balance_proof c) + locked_amount c + lk_amount l
                > total_deposit c
        then Inl InsufficientBalance
      else Inr (c\<lparr>pending_locks := pending_locks c @ [l]\<rparr>))"

text \<open>Modelled from the spec: \<open>remove_lock(channel, hashlock)\<close>, whose source is
  missing.  It fails with \<open>UnknownHashlock\<close> when no lock with the hashlock is
  pending.\<close>

definition remove_lock :: "channel \<Rightarrow> string \<Rightarrow> ledger_error + channel" where
  "remove_lock c h =
     (if h \<notin> lk_hashlock ` set (pending_locks c) then Inl UnknownHashlock
      else Inr (c\<lparr>pending_locks := filter (\<lambda>l. lk_hashlock l \<noteq> h) (pending_locks c)\<rparr>))"

text \<open>Modelled from the spec: the chain fact
  \<open>ChannelNewDeposit{channel_identifier, participant, new_total_deposit}\<close>, whose
  handler is missing.  The notice carries the participant's total escrowed value,
  not an increment; a notice that does not raise the recorded total is stale or a
  duplicate and changes nothing.\<close>

fun apply_deposit :: "channel \<Rightarrow> participant \<Rightarrow> nat \<Rightarrow> channel" where
  "apply_deposit c Self new_total_deposit =
     (if new_total_deposit > own_deposit c then c\<lparr>own_deposit := new_total_deposit\<rparr> else c)"
| "apply_deposit c Partner new_total_deposit =
     (if new_total_deposit > partner_deposit c
        then c\<lparr>partner_deposit := new_total_deposit\<rparr> else c)"

text \<open>Modelled from the spec: the channel created on the chain fact
  \<open>ChannelOpened\<close>, before any deposit, lock or balance proof: no value escrowed,
  no proof accepted yet (nonce and transferred amount 0), no pending lock.  The
  ledger's source is missing.\<close>

definition empty_proof :: "nat \<Rightarrow> balance_proof" where
  "empty_proof cid =
     \<lparr>bp_channel_identifier = cid, bp_nonce = 0, bp_transferred_amount = 0,
      bp_locksroot = [], bp_signature = []\<rparr>"

definition channel_opened ::
  "nat \<Rightarrow> string \<Rightarrow> string \<Rightarrow> string \<Rightarrow> nat \<Rightarrow> nat \<Rightarrow> channel" where
  "channel_opened cid tok self partner settle reveal =
     \<lparr>ch_channel_identifier = cid, ch_token_address = tok,
      ch_participant_self = self, ch_participant_partner = partner,
      ch_settle_timeout = settle, ch_reveal_timeout = reveal,
      own_deposit = 0, partner_deposit = 0,
      own_balance_proof = empty_proof cid, partner_balance_proof = empty_proof cid,
      pending_locks = [], ch_state = Opened\<rparr>"

text \<open>Modelled from the spec: the mutations of a channel as state changes, and
  their application by the dispatcher, which is missing.  A state change that the
  ledger rejects is discarded and the channel stays in its current state (section 7,
  protocol-violation errors); any other is applied.\<close>

datatype ledger_change =
  NewDeposit participant nat
  | AddLock pending_lock
  | RemoveLock string
  | ReceiveBalanceProof balance_proof participant

fun apply_change ::
  "(balance_proof \<Rightarrow> participant \<Rightarrow> bool) \<Rightarrow> channel \<Rightarrow> ledger_change
     \<Rightarrow> ledger_error + channel" where
  "apply_change verify c (NewDeposit p n) = Inr (apply_deposit c p n)"
| "apply_change verify c (AddLock l) = add_lock c l"
| "apply_change verify c (RemoveLock h) = remove_lock c h"
| "apply_change verify c (ReceiveBalanceProof proof sender') =
     (case apply_balance_proof verify c proof sender' of
        Inl e \<Rightarrow> Inl e
      | Inr (c', delta) \<Rightarrow> Inr c')"

definition ledger_step ::
  "(balance_proof \<Rightarrow> participant \<Rightarrow> bool) \<Rightarrow> channel \<Rightarrow> ledger_change \<Rightarrow> channel" where
  "ledger_step verify c change =
     (case apply_change verify c change of
        Inl e \<Rightarrow> c
      | Inr c' \<Rightarrow> c')"

text \<open>The invariant of the channel: what the node has transferred and what it has
  locked never exceeds the total escrowed value.\<close>

definition no_overspend :: "channel \<Rightarrow> bool" where
  "no_overspend c \<longleftrightarrow>
     bp_transferred_amount (own_balance_proof c) + locked_amount c \<le> total_deposit c"

text \<open>A funded channel and a balance proof of the node for it, with a signature
  check that accepts everything.\<close>

definition funded_channel :: channel where
  "funded_channel =
     apply_deposit (channel_opened 1 ''token'' ''app0'' ''app3'' 50 10) Self 10"

definition first_proof :: balance_proof where
  "first_proof =
     \<lparr>bp_channel_identifier = 1, bp_nonce = 1, bp_transferred_amount = 3,
      bp_locksroot = [], bp_signature = ''signed''\<rparr>"

section \<open>Route model and the start of the initiator\<close>

text \<open>
  The route model and the role state machines are not among the source files at
  hand either (the test module imports them); they are written from the
  specification, sections 3, 4.2, 4.3 and 4.6.
\<close>

text \<open>Modelled from the spec: the record \<open>Route\<close>,
  \<open>{node_address, channel_identifier, available_balance, settle_timeout,
  reveal_timeout, closed_block}\<close>; the route model's source is missing.\<close>

record route =
  rt_node_address :: string
  rt_channel_identifier :: nat
  rt_available_balance :: nat
  rt_settle_timeout :: nat
  rt_reveal_timeout :: nat
  rt_closed_block :: "nat option"

text \<open>Modelled from the spec: \<open>RoutesState\<close>, four ordered sequences of routes;
  the route model's source is missing.\<close>

record routes_state =
  available :: "route list"
  ignored :: "route list"
  refunded :: "route list"
  canceled :: "route list"

text \<open>Modelled from the spec: a route qualifies when it meets the balance
  requirement and its channel is not excluded (section 4.2); the route model's
  source is missing.\<close>

definition qualifies :: "nat set \<Rightarrow> nat \<Rightarrow> route \<Rightarrow> bool" where
  "qualifies exclude required_balance r \<longleftrightarrow>
     rt_available_balance r \<ge> required_balance \<and> rt_channel_identifier r \<notin> exclude"

text \<open>Modelled from the spec: \<open>next_route(routes_state, exclude,
  required_balance)\<close>, whose source is missing: the first available route meeting
  the balance requirement and not excluded, or no route (\<open>None\<close>, not an error) if
  none qualifies.  \<open>first_route\<close> is the search through the sequence, front to
  back.\<close>

fun first_route :: "route list \<Rightarrow> nat set \<Rightarrow> nat \<Rightarrow> route option" where
  "first_route [] exclude required_balance = None"
| "first_route (r # rs) exclude required_balance =
     (if qualifies exclude required_balance r then Some r
      else first_route rs exclude required_balance)"

definition next_route :: "routes_state \<Rightarrow> nat set \<Rightarrow> nat \<Rightarrow> route option" where
  "next_route routes exclude required_balance =
     first_route (available routes) exclude required_balance"

text \<open>Modelled from the spec: the transfer descriptor of a mediated transfer,
  \<open>{identifier, token, amount, initiator, target, hashlock, secret, expiration}\<close>,
  the last two optional; the source of the state machines is missing.\<close>

record transfer =
  tr_identifier :: nat
  tr_token :: string
  tr_amount :: nat
  tr_initiator :: string
  tr_target :: string
  tr_hashlock :: string
  tr_secret :: "string option"
  tr_expiration :: "nat option"

text \<open>Modelled from the spec: the events a role state machine emits (section 6),
  each with its recipient where it is a message; the source of the state machines
  is missing.\<close>

datatype event =
  SendMediatedTransfer string transfer
  | SendSecretRequest string string nat
  | SendRevealSecret string string
  | SendBalanceProof string nat balance_proof
  | SendTransferRefund string transfer
  | EventTransferSentSuccess
  | EventTransferSentFailed
  | EventUnlockSuccess
  | EventTransferReceivedSuccess
  | EventTransferReceivedFailed

text \<open>Modelled from the spec: why a state change is rejected as a whole.  The
  channels live in an arena of the aggregate state, referenced by channel identifier
  (section 9); a state change is never partially applied (section 4.6), so a
  reducer that cannot find the channel or whose ledger operation fails returns the
  rejection and no new state; unknown or malformed state changes are rejected too.
  The dispatcher's source is missing.\<close>

datatype rejection = UnknownChannel nat | LedgerError ledger_error | MalformedStateChange

text \<open>Modelled from the spec: the lifecycle and the state of the initiator
  (section 4.3), \<open>init \<rightarrow> route_selected \<rightarrow> revealed_secret \<rightarrow> completed | failed\<close>;
  its source is missing.\<close>

datatype initiator_lifecycle =
  InitiatorInit | RouteSelected | RevealedSecret | InitiatorCompleted | InitiatorFailed

record initiator =
  ini_transfer :: transfer
  ini_routes :: routes_state
  ini_route :: "route option"
  ini_lifecycle :: initiator_lifecycle

text \<open>Modelled from the spec: the initiator on \<open>ActionInitInitiator{transfer,
  routes}\<close> (section 4.3), whose source is missing.  It selects a route with
  \<open>next_route\<close>, nothing excluded and \<open>required_balance = amount\<close>.  With no route
  it fails and emits \<open>EventTransferSentFailed\<close>.  Otherwise it commits: the
  expiration is \<open>current_block + settle_timeout - margin\<close> (not below 0), the lock
  is added to the channel of the route, \<open>SendMediatedTransfer\<close> goes to the peer of
  the route and the state is \<open>route_selected\<close>.\<close>

definition init_initiator ::
  "nat \<Rightarrow> nat \<Rightarrow> (nat \<rightharpoonup> channel) \<Rightarrow> transfer \<Rightarrow> routes_state
     \<Rightarrow> rejection + (nat \<rightharpoonup> channel) \<times> initiator \<times> event list" where
  "init_initiator current_block margin channels tr routes =
     (case next_route routes {} (tr_amount tr) of
        None \<Rightarrow>
          Inr (channels,
               \<lparr>ini_transfer = tr, ini_routes = routes, ini_route = None,
                ini_lifecycle = InitiatorFailed\<rparr>,
               [EventTransferSentFailed])
      | Some r \<Rightarrow>
          (case channels (rt_channel_identifier r) of
             None \<Rightarrow> Inl (UnknownChannel (rt_channel_identifier r))
           | Some c \<Rightarrow>
               (let expiration = current_block + rt_settle_timeout r - margin;
                    tr' = tr\<lparr>tr_expiration := Some expiration\<rparr>
                in case add_lock c \<lparr>lk_hashlock = tr_hashlock tr, lk_amount = tr_amount tr,
                                    lk_expiration = expiration\<rparr> of
                     Inl e \<Rightarrow> Inl (LedgerError e)
                   | Inr c' \<Rightarrow>
                       Inr (channels(rt_channel_identifier r \<mapsto> c'),
                            \<lparr>ini_transfer = tr', ini_routes = routes, ini_route = Some r,
                             ini_lifecycle = RouteSelected\<rparr>,
                            [SendMediatedTransfer (rt_node_address r) tr']))))"

text \<open>Two routes as a router may supply them: the first has just enough balance,
  the second far more.  The channel of the first route holds a deposit of 5.\<close>

definition route_small :: route where
  "route_small =
     \<lparr>rt_node_address = ''app3'', rt_channel_identifier = 1, rt_available_balance = 5,
      rt_settle_timeout = 50, rt_reveal_timeout = 10, rt_closed_block = None\<rparr>"

definition route_large :: route where
  "route_large =
     \<lparr>rt_node_address = ''app1'', rt_channel_identifier = 2, rt_available_balance = 200,
      rt_settle_timeout = 50, rt_reveal_timeout = 10, rt_closed_block = None\<rparr>"

definition two_routes :: routes_state where
  "two_routes =
     \<lparr>available = [route_small, route_large], ignored = [], refunded = [], canceled = []\<rparr>"

definition transfer_of_5 :: transfer where
  "transfer_of_5 =
     \<lparr>tr_identifier = 1, tr_token = ''token'', tr_amount = 5, tr_initiator = ''app0'',
      tr_target = ''app2'', tr_hashlock = ''hashlock'', tr_secret = Some ''secret'',
      tr_expiration = None\<rparr>"

definition channel_to_app3 :: channel where
  "channel_to_app3 =
     apply_deposit (channel_opened 1 ''token'' ''app0'' ''app3'' 50 10) Self 5"

section \<open>Mediator state machine\<close>

text \<open>
  The mediator is written from the specification, section 4.4, with the data of
  section 3, the events of section 6 and the error handling of sections 4.6 and 7.
\<close>

text \<open>Modelled from the spec: the cryptographic primitives adapter (section 2), pure
  functions the core calls: the hash of a secret, the signature check of a balance
  proof, the commitment over a set of pending locks, and the signature that the
  node's own balance proof carries.  With it comes the configured
  \<open>reveal_timeout_margin\<close>.  The adapter's source is missing.\<close>

record environment =
  env_sha3 :: "string \<Rightarrow> string"
  env_verify :: "balance_proof \<Rightarrow> participant \<Rightarrow> bool"
  env_locksroot :: "pending_lock list \<Rightarrow> string"
  env_sign :: "nat \<Rightarrow> nat \<Rightarrow> nat \<Rightarrow> string \<Rightarrow> string"
  env_reveal_timeout_margin :: nat

text \<open>Modelled from the spec: the lifecycle and the state of the mediator,
  \<open>init \<rightarrow> forwarded \<rightarrow> revealing \<rightarrow> completed | failed\<close>: the incoming route and
  transfer, the candidate routes, and the outgoing route with the expiration of the
  outgoing lock once a route is chosen.  The mediator's source is missing.\<close>

datatype mediator_lifecycle =
  MediatorInit | Forwarded | Revealing | MediatorCompleted | MediatorFailed

record mediator =
  med_from_route :: route
  med_from_transfer :: transfer
  med_routes :: routes_state
  med_route :: "route option"
  med_expiration :: nat
  med_lifecycle :: mediator_lifecycle

text \<open>Modelled from the spec: the state changes a mediator receives:
  \<open>ActionInitMediator{from_route, from_transfer, routes}\<close>, a secret reveal with
  its sender, the balance proof with which the upstream peer acknowledges the
  unlock, and a block advance.  The source of the state changes is missing.\<close>

datatype mediator_change =
  ActionInitMediator route transfer routes_state
  | ReceiveSecretReveal string string
  | ReceiveUnlock balance_proof
  | Block nat

text \<open>Modelled from the spec: \<open>mark_canceled(routes_state, route)\<close> (section 4.2),
  whose source is missing: it moves a route out of \<open>available\<close> and changes nothing
  if the route has already left \<open>available\<close>.\<close>

definition mark_canceled :: "routes_state \<Rightarrow> route \<Rightarrow> routes_state" where
  "mark_canceled routes r =
     (if r \<in> set (available routes)
        then routes\<lparr>available := filter (\<lambda>x. x \<noteq> r) (available routes),
                    canceled := canceled routes @ [r]\<rparr>
      else routes)"

text \<open>Modelled from the spec: the forwarding attempt of the mediator (section 4.4,
  \<open>ActionInitMediator\<close>), whose source is missing.  It selects an outgoing route
  excluding the channel of \<open>from_route\<close>, with the amount of \<open>from_transfer\<close> as
  required balance; the outgoing expiration is the incoming one less
  \<open>reveal_timeout_margin\<close>.  With no route it does not forward: it emits the refund
  to the sender of \<open>from_route\<close> and fails.  Otherwise it adds the mirrored lock
  (same hashlock, reduced expiration) to the outgoing channel, emits
  \<open>SendMediatedTransfer\<close> downstream and is \<open>forwarded\<close>.\<close>

definition mediator_forward ::
  "environment \<Rightarrow> (nat \<rightharpoonup> channel) \<Rightarrow> mediator \<Rightarrow> nat
     \<Rightarrow> rejection + (nat \<rightharpoonup> channel) \<times> mediator \<times> event list" where
  "mediator_forward env channels st from_expiration =
     (let from_transfer = med_from_transfer st;
          from_route = med_from_route st
      in case next_route (med_routes st) {rt_channel_identifier from_route}
                (tr_amount from_transfer) of
           None \<Rightarrow>
             Inr (channels, st\<lparr>med_route := None, med_lifecycle := MediatorFailed\<rparr>,
                  [SendTransferRefund (rt_node_address from_route) from_transfer])
         | Some r \<Rightarrow>
             (case channels (rt_channel_identifier r) of
                None \<Rightarrow> Inl (UnknownChannel (rt_channel_identifier r))
              | Some c \<Rightarrow>
                  (let expiration = from_expiration - env_reveal_timeout_margin env
                   in case add_lock c \<lparr>lk_hashlock = tr_hashlock from_transfer,
                                       lk_amount = tr_amount from_transfer,
                                       lk_expiration = expiration\<rparr> of
                        Inl e \<Rightarrow> Inl (LedgerError e)
                      | Inr c' \<Rightarrow>
                          Inr (channels(rt_channel_identifier r \<mapsto> c'),
                               st\<lparr>med_route := Some r, med_expiration := expiration,
                                  med_lifecycle := Forwarded\<rparr>,
                               [SendMediatedTransfer (rt_node_address r)
                                  (from_transfer\<lparr>tr_expiration := Some expiration\<rparr>)]))))"

text \<open>Modelled from the spec: the balance proof with which the node unlocks a lock
  of its own on a channel: the next nonce, the transferred amount raised by the
  amount of the lock, the commitment over the locks that stay pending.  The
  ledger's source is missing.\<close>

definition unlock_proof :: "environment \<Rightarrow> channel \<Rightarrow> string \<Rightarrow> nat \<Rightarrow> balance_proof" where
  "unlock_proof env c h amount' =
     (let cid = ch_channel_identifier c;
          nonce = bp_nonce (own_balance_proof c) + 1;
          transferred = bp_transferred_amount (own_balance_proof c) + amount';
          root = env_locksroot env (filter (\<lambda>l. lk_hashlock l \<noteq> h) (pending_locks c))
      in \<lparr>bp_channel_identifier = cid, bp_nonce = nonce,
          bp_transferred_amount = transferred, bp_locksroot = root,
          bp_signature = env_sign env cid nonce transferred root\<rparr>)"

text \<open>Modelled from the spec: the mediator on a secret reveal (section 4.4), whose
  source is missing.  It acts only while \<open>forwarded\<close> and only on a reveal from the
  downstream peer; the secret must hash to the pending hashlock, a mismatch is
  discarded.  On success it applies the outgoing balance proof, removes the outgoing
  lock, then mirrors the reveal upstream (\<open>SendRevealSecret\<close> to the sender of
  \<open>from_route\<close>) and is \<open>revealing\<close>.  If the ledger refuses a step the state
  change is rejected as a whole.\<close>

definition mediator_reveal ::
  "environment \<Rightarrow> (nat \<rightharpoonup> channel) \<Rightarrow> mediator \<Rightarrow> string \<Rightarrow> string
     \<Rightarrow> rejection + (nat \<rightharpoonup> channel) \<times> mediator \<times> event list" where
  "mediator_reveal env channels st secret sender' =
     (case med_route st of
        None \<Rightarrow> Inr (channels, st, [])
      | Some r \<Rightarrow>
          if med_lifecycle st \<noteq> Forwarded \<or> sender' \<noteq> rt_node_address r
            then Inr (channels, st, [])
          else if env_sha3 env secret \<noteq> tr_hashlock (med_from_transfer st)
            then Inr (channels, st, [])
          else
            (case channels (rt_channel_identifier r) of
               None \<Rightarrow> Inl (UnknownChannel (rt_channel_identifier r))
             | Some c \<Rightarrow>
                 (let h = tr_hashlock (med_from_transfer st);
                      proof = unlock_proof env c h (tr_amount (med_from_transfer st))
                  in case apply_balance_proof (env_verify env) c proof Self of
                       Inl e \<Rightarrow> Inl (LedgerError e)
                     | Inr (c1, delta) \<Rightarrow>
                         (case remove_lock c1 h of
                            Inl e \<Rightarrow> Inl (LedgerError e)
                          | Inr c2 \<Rightarrow>
                              Inr (channels(rt_channel_identifier r \<mapsto> c2),
                                   st\<lparr>med_lifecycle := Revealing\<rparr>,
                                   [SendBalanceProof (rt_node_address r)
                                      (rt_channel_identifier r) proof,
                                    SendRevealSecret
                                      (rt_node_address (med_from_route st)) secret])))))"

text \<open>Modelled from the spec: the mediator on the upstream acknowledgment of the
  unlock (section 4.4), whose source is missing: while \<open>revealing\<close> it applies the
  incoming balance proof, removes the incoming lock and is \<open>completed\<close>, with no
  further event.\<close>

definition mediator_acknowledge ::
  "environment \<Rightarrow> (nat \<rightharpoonup> channel) \<Rightarrow> mediator \<Rightarrow> balance_proof
     \<Rightarrow> rejection + (nat \<rightharpoonup> channel) \<times> mediator \<times> event list" where
  "mediator_acknowledge env channels st proof =
     (if med_lifecycle st \<noteq> Revealing then Inr (channels, st, [])
      else
        (case channels (rt_channel_identifier (med_from_route st)) of
           None \<Rightarrow> Inl (UnknownChannel (rt_channel_identifier (med_from_route st)))
         | Some c \<Rightarrow>
             (case apply_balance_proof (env_verify env) c proof Partner of
                Inl e \<Rightarrow> Inl (LedgerError e)
              | Inr (c1, delta) \<Rightarrow>
                  (case remove_lock c1 (tr_hashlock (med_from_transfer st)) of
                     Inl e \<Rightarrow> Inl (LedgerError e)
                   | Inr c2 \<Rightarrow>
                       Inr (channels(rt_channel_identifier (med_from_route st) \<mapsto> c2),
                            st\<lparr>med_lifecycle := MediatorCompleted\<rparr>, [])))))"

text \<open>Modelled from the spec: the mediator on a block advance (section 4.4), whose
  source is missing.  While \<open>forwarded\<close>, a block past the outgoing expiration
  abandons the outgoing attempt (the route leaves \<open>available\<close>); the next route is
  tried if the incoming lock has not itself expired, otherwise the refund goes
  upstream and the mediator fails.\<close>

definition mediator_block_advance ::
  "environment \<Rightarrow> (nat \<rightharpoonup> channel) \<Rightarrow> mediator \<Rightarrow> nat
     \<Rightarrow> rejection + (nat \<rightharpoonup> channel) \<times> mediator \<times> event list" where
  "mediator_block_advance env channels st block_number =
     (case med_route st of
        None \<Rightarrow> Inr (channels, st, [])
      | Some r \<Rightarrow>
          if med_lifecycle st \<noteq> Forwarded \<or> block_number \<le> med_expiration st
            then Inr (channels, st, [])
          else
            (case tr_expiration (med_from_transfer st) of
               None \<Rightarrow> Inl MalformedStateChange
             | Some from_expiration \<Rightarrow>
                 if block_number \<le> from_expiration
                   then mediator_forward env channels
                          (st\<lparr>med_routes := mark_canceled (med_routes st) r\<rparr>)
                          from_expiration
                 else Inr (channels, st\<lparr>med_lifecycle := MediatorFailed\<rparr>,
                           [SendTransferRefund (rt_node_address (med_from_route st))
                              (med_from_transfer st)])))"

text \<open>Modelled from the spec: the dispatch of one state change to the mediator
  (section 4.6), whose source is missing.  \<open>ActionInitMediator\<close> creates the state
  machine and makes the first forwarding attempt; a transfer without expiration is
  malformed.  Every other state change goes to the live state machine and is
  ignored when there is none.\<close>

definition mediate ::
  "environment \<Rightarrow> (nat \<rightharpoonup> channel) \<times> mediator option \<Rightarrow> mediator_change
     \<Rightarrow> rejection + ((nat \<rightharpoonup> channel) \<times> mediator option) \<times> event list" where
  "mediate env s change =
     (let result =
        (case (change, snd s) of
           (ActionInitMediator from_route from_transfer routes, _) \<Rightarrow>
             (case tr_expiration from_transfer of
                None \<Rightarrow> Inl MalformedStateChange
              | Some from_expiration \<Rightarrow>
                  mediator_forward env (fst s)
                    \<lparr>med_from_route = from_route, med_from_transfer = from_transfer,
                     med_routes = routes, med_route = None, med_expiration = 0,
                     med_lifecycle = MediatorInit\<rparr>
                    from_expiration)
         | (ReceiveSecretReveal secret sender', Some st) \<Rightarrow>
             mediator_reveal env (fst s) st secret sender'
         | (ReceiveUnlock proof, Some st) \<Rightarrow> mediator_acknowledge env (fst s) st proof
         | (Block block_number, Some st) \<Rightarrow> mediator_block_advance env (fst s) st block_number
         | (_, None) \<Rightarrow> Inl MalformedStateChange)
      in case result of
           Inl e \<Rightarrow> Inl e
         | Inr (channels', st', events) \<Rightarrow> Inr ((channels', Some st'), events))"

text \<open>Modelled from the spec: a run of the mediator over a log of state changes
  (section 4.6), as the sequence of its steps: a rejected state change is discarded
  and leaves the state as it was; every applied one contributes the state it leads
  to and the events it emits.\<close>

fun mediator_trace ::
  "environment \<Rightarrow> (nat \<rightharpoonup> channel) \<times> mediator option \<Rightarrow> mediator_change list
     \<Rightarrow> (((nat \<rightharpoonup> channel) \<times> mediator option) \<times> event list) list" where
  "mediator_trace env s [] = []"
| "mediator_trace env s (change # changes) =
     (case mediate env s change of
        Inl e \<Rightarrow> mediator_trace env s changes
      | Inr (s', events) \<Rightarrow> (s', events) # mediator_trace env s' changes)"

text \<open>Modelled from the spec: the outgoing unlock is secured (section 4.4, safety
  invariant) for a secret and an upstream peer when the mediator has an outgoing
  route and is \<open>revealing\<close>, the peer is the sender of \<open>from_route\<close>, the secret
  hashes to the hashlock of the transfer, and the outgoing channel holds no pending
  lock with that hashlock any more: the lock has been removed.\<close>

definition secured ::
  "environment \<Rightarrow> (nat \<rightharpoonup> channel) \<Rightarrow> mediator \<Rightarrow> string \<Rightarrow> string \<Rightarrow> bool" where
  "secured env channels st peer secret \<longleftrightarrow>
     (\<exists>r c. med_route st = Some r
        \<and> med_lifecycle st = Revealing
        \<and> peer = rt_node_address (med_from_route st)
        \<and> env_sha3 env secret = tr_hashlock (med_from_transfer st)
        \<and> channels (rt_channel_identifier r) = Some c
        \<and> tr_hashlock (med_from_transfer st) \<notin> lk_hashlock ` set (pending_locks c))"

text \<open>A mediator between two peers: the transfer of 5 comes in from App0 over
  channel 1 and can leave to App2 over channel 2, which holds a deposit of 10.  The
  hash of the adapter wraps its argument, the signature check accepts everything.\<close>

definition toy_env :: environment where
  "toy_env =
     \<lparr>env_sha3 = (\<lambda>s. ''h('' @ s @ '')''),
      env_verify = (\<lambda>p s. True),
      env_locksroot = (\<lambda>ls. concat (map lk_hashlock ls)),
      env_sign = (\<lambda>cid nonce transferred root. ''signed''),
      env_reveal_timeout_margin = 10\<rparr>"

definition route_from_app0 :: route where
  "route_from_app0 =
     \<lparr>rt_node_address = ''app0'', rt_channel_identifier = 1, rt_available_balance = 0,
      rt_settle_timeout = 50, rt_reveal_timeout = 10, rt_closed_block = None\<rparr>"

definition route_to_app2 :: route where
  "route_to_app2 =
     \<lparr>rt_node_address = ''app2'', rt_channel_identifier = 2, rt_available_balance = 10,
      rt_settle_timeout = 50, rt_reveal_timeout = 10, rt_closed_block = None\<rparr>"

definition incoming_transfer :: transfer where
  "incoming_transfer =
     \<lparr>tr_identifier = 1, tr_token = ''token'', tr_amount = 5, tr_initiator = ''app0'',
      tr_target = ''app2'', tr_hashlock = ''h(secret)'', tr_secret = None,
      tr_expiration = Some 140\<rparr>"

definition mediator_channels :: "nat \<rightharpoonup> channel" where
  "mediator_channels =
     [1 \<mapsto> apply_deposit (channel_opened 1 ''token'' ''app3'' ''app0'' 50 10) Partner 10,
      2 \<mapsto> apply_deposit (channel_opened 2 ''token'' ''app3'' ''app2'' 50 10) Self 10]"

definition mediator_log :: "mediator_change list" where
  "mediator_log =
     [ActionInitMediator route_from_app0 incoming_transfer
        \<lparr>available = [route_from_app0, route_to_app2], ignored = [], refunded = [],
         canceled = []\<rparr>,
      ReceiveSecretReveal ''wrong'' ''app2'',
      ReceiveSecretReveal ''secret'' ''app2'']"

section \<open>Properties of the path checks\<close>

lemma check_pairs_ok:
  "check_pairs ps = Inr () \<longleftrightarrow> (\<forall>(a, b) \<in> set ps. check_pair a b = Inr ())"
  by (induction ps rule: check_pairs.induct) (auto split: sum.splits)

lemma all_MediatedTransfer_map:
  "list_all is_MediatedTransfer ms \<Longrightarrow> ms = map MediatedTransfer (the_transfers ms)"
  by (induction ms rule: the_transfers.induct) auto

lemma zip_butlast_tl_nth:
  "Suc i < length xs \<Longrightarrow> zip (butlast xs) (tl xs) ! i = (xs ! i, xs ! Suc i)"
  by (simp add: nth_butlast nth_tl)

text \<open>
  When the helper returns without raising, every two neighbours of the argument tuple
  are \<open>MediatedTransfer\<close>s that passed the body of the loop.
\<close>

lemma accepted_path_adjacent:
  assumes "assert_path_mediated_transfer transfers = Inr ()"
    and "Suc i < length transfers"
  shows "\<exists>first second. transfers ! i = MediatedTransfer first
           \<and> transfers ! Suc i = MediatedTransfer second
           \<and> check_pair first second = Inr ()"
proof -
  let ?ts = "the_transfers transfers"
  let ?ps = "zip (butlast ?ts) (tl ?ts)"
  from assms(1) have all: "list_all is_MediatedTransfer transfers"
    and pairs: "check_pairs ?ps = Inr ()"
    by (auto simp: assert_path_mediated_transfer_def split: if_splits)
  from all have eq: "transfers = map MediatedTransfer ?ts"
    by (rule all_MediatedTransfer_map)
  then have "length ?ts = length transfers"
    by (metis length_map)
  with assms(2) have i: "Suc i < length ?ts" by simp
  then have "i < length ?ps" by simp
  then have "?ps ! i \<in> set ?ps" by (rule nth_mem)
  with zip_butlast_tl_nth [OF i] have "(?ts ! i, ?ts ! Suc i) \<in> set ?ps" by simp
  with pairs have "check_pair (?ts ! i) (?ts ! Suc i) = Inr ()"
    by (auto simp: check_pairs_ok)
  moreover from eq i have "transfers ! i = MediatedTransfer (?ts ! i)"
    "transfers ! Suc i = MediatedTransfer (?ts ! Suc i)"
    by (metis nth_map Suc_lessD)+
  ultimately show ?thesis by blast
qed

lemma check_pair_fields:
  assumes "check_pair first second = Inr ()"
  shows "msg_identifier first = msg_identifier second"
    and "token first = token second"
    and "amount (lock first) = amount (lock second)"
    and "hashlock (lock first) = hashlock (lock second)"
    and "target first = target second"
    and "initiator first = initiator second"
    and "recipient first = sender second"
    and "expiration (lock first) > expiration (lock second)"
  using assms
  by (auto simp: check_pair_def mediated_transfer_almost_equal_def
      split: sum.splits if_splits)

lemma example_path_accepted:
  "assert_path_mediated_transfer
     [MediatedTransfer transfer_0_3, MediatedTransfer transfer_3_2] = Inr ()"
  by (simp add: assert_path_mediated_transfer_def check_pair_def
      mediated_transfer_almost_equal_def transfer_0_3_def transfer_3_2_def)

text \<open>
  Claim C5.  On every sequence of messages that \<open>assert_path_mediated_transfer\<close>
  accepts (it returns without raising), each adjacent pair consists of two
  \<open>MediatedTransfer\<close>s and the lock expiration of the first is strictly greater
  than the lock expiration of the second: expirations strictly decrease hop over hop.
\<close>

theorem path_expiration_strictly_decreasing:
  assumes "assert_path_mediated_transfer transfers = Inr ()"
    and "Suc i < length transfers"
  shows "\<exists>first second. transfers ! i = MediatedTransfer first
           \<and> transfers ! Suc i = MediatedTransfer second
           \<and> expiration (lock first) > expiration (lock second)"
proof -
  from accepted_path_adjacent [OF assms] obtain first second
    where "transfers ! i = MediatedTransfer first"
      and "transfers ! Suc i = MediatedTransfer second"
      and "check_pair first second = Inr ()"
    by blast
  then show ?thesis
    using check_pair_fields(8) by blast
qed

theorem path_expiration_strictly_decreasing_witness:
  "assert_path_mediated_transfer
       [MediatedTransfer transfer_0_3, MediatedTransfer transfer_3_2] = Inr ()
   \<and> (\<exists>first second.
         [MediatedTransfer transfer_0_3, MediatedTransfer transfer_3_2] ! 0
            = MediatedTransfer first
         \<and> [MediatedTransfer transfer_0_3, MediatedTransfer transfer_3_2] ! Suc 0
            = MediatedTransfer second
         \<and> expiration (lock first) > expiration (lock second))"
proof -
  let ?path = "[MediatedTransfer transfer_0_3, MediatedTransfer transfer_3_2]"
  have accepted: "assert_path_mediated_transfer ?path = Inr ()"
    by (simp add: example_path_accepted)
  have "Suc 0 < length ?path" by simp
  from path_expiration_strictly_decreasing [OF accepted this] accepted
  show ?thesis by simp
qed

text \<open>
  Claim C6.  On every sequence of messages that \<open>assert_path_mediated_transfer\<close>
  accepts, each adjacent pair agrees on identifier, token, lock amount, lock hashlock,
  target and initiator, and the recipient of the first message is the sender of the
  second.
\<close>

theorem path_preserves_transfer_identity:
  assumes "assert_path_mediated_transfer transfers = Inr ()"
    and "Suc i < length transfers"
  shows "\<exists>first second. transfers ! i = MediatedTransfer first
           \<and> transfers ! Suc i = MediatedTransfer second
           \<and> msg_identifier first = msg_identifier second
           \<and> token first = token second
           \<and> amount (lock first) = amount (lock second)
           \<and> hashlock (lock first) = hashlock (lock second)
           \<and> target first = target second
           \<and> initiator first = initiator second
           \<and> recipient first = sender second"
proof -
  from accepted_path_adjacent [OF assms] obtain first second
    where "transfers ! i = MediatedTransfer first"
      and "transfers ! Suc i = MediatedTransfer second"
      and "check_pair first second = Inr ()"
    by blast
  then show ?thesis
    using check_pair_fields(1-7) [of first second] by blast
qed

theorem path_preserves_transfer_identity_witness:
  "assert_path_mediated_transfer
       [MediatedTransfer transfer_0_3, MediatedTransfer transfer_3_2] = Inr ()
   \<and> (\<exists>first second.
         [MediatedTransfer transfer_0_3, MediatedTransfer transfer_3_2] ! 0
            = MediatedTransfer first
         \<and> [MediatedTransfer transfer_0_3, MediatedTransfer transfer_3_2] ! Suc 0
            = MediatedTransfer second
         \<and> msg_identifier first = msg_identifier second
         \<and> token first = token second
         \<and> amount (lock first) = amount (lock second)
         \<and> hashlock (lock first) = hashlock (lock second)
         \<and> target first = target second
         \<and> initiator first = initiator second
         \<and> recipient first = sender second)"
proof -
  let ?path = "[MediatedTransfer transfer_0_3, MediatedTransfer transfer_3_2]"
  have accepted: "assert_path_mediated_transfer ?path = Inr ()"
    by (simp add: example_path_accepted)
  have "Suc 0 < length ?path" by simp
  from path_preserves_transfer_identity [OF accepted this] accepted
  show ?thesis by simp
qed

section \<open>Properties of the log search\<close>

lemma getattr_attr:
  "getattr item name =
     (case attr item name of None \<Rightarrow> Inl (AttributeError name) | Some v \<Rightarrow> Inr v)"
  by (cases item) auto



lemma check_loop_match:
  "check_loop Python2 item data = Inr True \<longleftrightarrow> subset_match item data"
proof (induction item data rule: subset_match.induct)
  case (1 item)
  show ?case by simp
next
  case (2 item name val rest)
  show ?case
  proof (cases "attr item name")
    case None
    then show ?thesis by (simp add: getattr_attr)
  next
    case (Some item_value)
    show ?thesis
    proof (cases val)
      case (EVal v)
      with Some 2(2) show ?thesis by (simp add: getattr_attr)
    next
      case (EDict d)
      from 2(1) [OF Some EDict]
      have "check_loop Python2 item_value d = Inr True \<longleftrightarrow> subset_match item_value d" .
      with Some EDict 2(2) show ?thesis
        by (auto simp: getattr_attr split: sum.splits)
    qed
  qed
qed


lemma check_match_Python2:
  "check_nested_attrs Python2 item data = Inr True \<longleftrightarrow> subset_match item data"
  by (simp add: check_loop_match)












section \<open>Properties of the flat lists\<close>

lemma deref_alloc_old:
  "deref h a = Some obj \<Longrightarrow> deref (fst (alloc h new)) a = Some obj"
  by (auto simp: deref_def alloc_def nth_append split: if_splits)

lemma deref_alloc_new:
  "deref (fst (alloc h new)) (snd (alloc h new)) = Some new"
  by (simp add: deref_def alloc_def)

lemma alloc_fresh:
  "deref h (snd (alloc h new)) = None"
  by (simp add: deref_def alloc_def)

text \<open>
  Claim C9.  For a \<open>FlatList\<close> \<open>xs\<close> of any of the six classes, reading \<open>xs.data\<close>
  returns a list object that did not exist before (its address is not in use in the
  old store), that is a plain list holding exactly the elements of \<open>xs\<close> in order
  (the object \<open>list(xs)\<close> builds), and every object of the old store, \<open>xs\<close>
  included, is unchanged in the new store.
\<close>

theorem FlatList_data_fresh_copy:
  assumes "deref h xs = Some (c, elems)"
    and "is_FlatList c"
  shows "\<exists>h' r. FlatList_data h xs = Some (h', r)
           \<and> FlatList_data h xs = list_of h xs
           \<and> deref h r = None
           \<and> deref h' r = Some (PyList, elems)
           \<and> deref h' xs = Some (c, elems)
           \<and> (\<forall>a obj. deref h a = Some obj \<longrightarrow> deref h' a = Some obj)"
proof -
  let ?new = "(PyList, elems)"
  let ?h' = "fst (alloc h ?new)" and ?r = "snd (alloc h ?new)"
  from assms have copy: "list_of h xs = Some (?h', ?r)"
    by (simp add: list_of_def)
  with assms have "FlatList_data h xs = Some (?h', ?r)" "FlatList_data h xs = list_of h xs"
    by (simp_all add: FlatList_data_def)
  moreover have "deref h ?r = None"
    by (rule alloc_fresh)
  moreover have "deref ?h' ?r = Some ?new"
    by (rule deref_alloc_new)
  moreover have "\<forall>a obj. deref h a = Some obj \<longrightarrow> deref ?h' a = Some obj"
    by (blast intro: deref_alloc_old)
  moreover from this assms(1) have "deref ?h' xs = Some (c, elems)"
    by blast
  ultimately show ?thesis by blast
qed

theorem FlatList_data_fresh_copy_witness:
  "deref [(ChannelList, [10, 20, 30 :: nat]), (PyList, [1])] 0
      = Some (ChannelList, [10, 20, 30])
   \<and> is_FlatList ChannelList
   \<and> FlatList_data [(ChannelList, [10, 20, 30 :: nat]), (PyList, [1])] 0
      = Some ([(ChannelList, [10, 20, 30]), (PyList, [1]), (PyList, [10, 20, 30])], 2)
   \<and> (\<exists>h' r. FlatList_data [(ChannelList, [10, 20, 30 :: nat]), (PyList, [1])] 0 = Some (h', r)
         \<and> deref [(ChannelList, [10, 20, 30 :: nat]), (PyList, [1])] r = None
         \<and> deref h' r = Some (PyList, [10, 20, 30])
         \<and> deref h' 0 = Some (ChannelList, [10, 20, 30]))"
proof -
  let ?h = "[(ChannelList, [10, 20, 30 :: nat]), (PyList, [1])]"
  have there: "deref ?h 0 = Some (ChannelList, [10, 20, 30])"
    by (simp add: deref_def)
  have flat: "is_FlatList ChannelList" by simp
  have run: "FlatList_data ?h 0 = Some ([(ChannelList, [10, 20, 30]), (PyList, [1]),
      (PyList, [10, 20, 30])], 2)"
    by (simp add: FlatList_data_def list_of_def deref_def alloc_def)
  from FlatList_data_fresh_copy [OF there flat]
  have "\<exists>h' r. FlatList_data ?h 0 = Some (h', r) \<and> deref ?h r = None
      \<and> deref h' r = Some (PyList, [10, 20, 30])
      \<and> deref h' 0 = Some (ChannelList, [10, 20, 30])"
    by blast
  with there flat run show ?thesis by blast
qed

section \<open>Properties of waiting for a contract\<close>

text \<open>
  Two facts about every run of the loop that returns, by induction over the
  unfolding of the loop: it returns \<open>True\<close> only with non-empty code at hand, and
  \<open>False\<close> only under a timeout that is neither \<open>None\<close> nor zero.
\<close>

lemma wait_loop_True:
  assumes "wait_loop getCode time_time timeout start_time k result current_time = Some y"
  shows "y \<longrightarrow> length result \<noteq> 0 \<or> (\<exists>j. length (getCode j) \<noteq> 0)"
proof (rule wait_loop.raw_induct
    [where P = "\<lambda>getCode time_time timeout start_time k result current_time y.
                  y \<longrightarrow> length result \<noteq> 0 \<or> (\<exists>j. length (getCode j) \<noteq> 0)"])
  show "wait_loop getCode time_time timeout start_time k result current_time = Some y"
    by (rule assms)
next
  fix wl :: "(nat \<Rightarrow> string) \<Rightarrow> (nat \<Rightarrow> real) \<Rightarrow> real option \<Rightarrow> real \<Rightarrow> nat \<Rightarrow> string
             \<Rightarrow> real \<Rightarrow> bool option"
  fix getCode time_time timeout start_time k result current_time y
  assume IH: "\<And>getCode time_time timeout start_time k result current_time y.
      wl getCode time_time timeout start_time k result current_time = Some y \<Longrightarrow>
      y \<longrightarrow> length result \<noteq> 0 \<or> (\<exists>j. length (getCode j) \<noteq> 0)"
  assume body: "(if length result = 0
        then (if timeout_guard timeout start_time current_time
                then Some False
              else wl getCode time_time timeout start_time (Suc k)
                     (getCode (Suc k)) (time_time (Suc (Suc k))))
      else Some (length result > 0)) = Some y"
  show "y \<longrightarrow> length result \<noteq> 0 \<or> (\<exists>j. length (getCode j) \<noteq> 0)"
  proof (cases "length result = 0")
    case True
    note empty = this
    show ?thesis
    proof (cases "timeout_guard timeout start_time current_time")
      case True
      with empty body show ?thesis by simp
    next
      case False
      with empty body have "wl getCode time_time timeout start_time (Suc k)
          (getCode (Suc k)) (time_time (Suc (Suc k))) = Some y" by simp
      from IH [OF this] show ?thesis by blast
    qed
  next
    case False
    then show ?thesis by simp
  qed
qed

lemma wait_loop_False:
  assumes "wait_loop getCode time_time timeout start_time k result current_time = Some y"
  shows "\<not> y \<longrightarrow> (\<exists>t. timeout = Some t \<and> t \<noteq> 0)"
proof (rule wait_loop.raw_induct
    [where P = "\<lambda>getCode time_time timeout start_time k result current_time y.
                  \<not> y \<longrightarrow> (\<exists>t. timeout = Some t \<and> t \<noteq> 0)"])
  show "wait_loop getCode time_time timeout start_time k result current_time = Some y"
    by (rule assms)
next
  fix wl :: "(nat \<Rightarrow> string) \<Rightarrow> (nat \<Rightarrow> real) \<Rightarrow> real option \<Rightarrow> real \<Rightarrow> nat \<Rightarrow> string
             \<Rightarrow> real \<Rightarrow> bool option"
  fix getCode time_time timeout start_time k result current_time y
  assume IH: "\<And>getCode time_time timeout start_time k result current_time y.
      wl getCode time_time timeout start_time k result current_time = Some y \<Longrightarrow>
      \<not> y \<longrightarrow> (\<exists>t. timeout = Some t \<and> t \<noteq> 0)"
  assume body: "(if length result = 0
        then (if timeout_guard timeout start_time current_time
                then Some False
              else wl getCode time_time timeout start_time (Suc k)
                     (getCode (Suc k)) (time_time (Suc (Suc k))))
      else Some (length result > 0)) = Some y"
  show "\<not> y \<longrightarrow> (\<exists>t. timeout = Some t \<and> t \<noteq> 0)"
  proof (cases "length result = 0")
    case True
    note empty = this
    show ?thesis
    proof (cases "timeout_guard timeout start_time current_time")
      case True
      then show ?thesis by (auto simp: timeout_guard_def split: option.splits)
    next
      case False
      with empty body have "wl getCode time_time timeout start_time (Suc k)
          (getCode (Suc k)) (time_time (Suc (Suc k))) = Some y" by simp
      from IH [OF this] show ?thesis by blast
    qed
  next
    case False
    with body show ?thesis by auto
  qed
qed

text \<open>
  Claim C10, as stated, fails for the timeout \<open>0\<close>, which is not \<open>None\<close> but
  false: the code is empty and \<open>start_time + timeout > current_time\<close> holds (the
  clock was set back between the two readings), yet the method does not give up; it
  queries again and returns \<open>True\<close>.
\<close>

theorem wait_for_contract_zero_timeout_counterexample:
  "length (mined_after_first_query 0) = 0
   \<and> clock_set_back 0 + 0 > clock_set_back 1
   \<and> wait_for_contract mined_after_first_query clock_set_back (Some 0) = Some True"
proof -
  have "wait_for_contract mined_after_first_query clock_set_back (Some 0) = Some True"
    unfolding wait_for_contract_def
    by (subst wait_loop.simps, simp add: timeout_guard_def mined_after_first_query_def,
        subst wait_loop.simps, simp add: mined_after_first_query_def)
  then show ?thesis
    by (simp add: mined_after_first_query_def clock_set_back_def)
qed

text \<open>
  Claim C10, amended.  With a timeout that is neither \<open>None\<close> nor zero, the method
  returns \<open>False\<close> on the first iteration of the loop whenever the first query
  returned empty code and \<open>start_time + timeout > current_time\<close>, that is while
  the timeout has not yet elapsed.  Whatever the timeout, it returns \<open>True\<close> only
  when a query returned non-empty code.
\<close>

theorem wait_for_contract_gives_up_early:
  "(t \<noteq> 0 \<and> length (getCode 0) = 0 \<and> time_time 0 + t > time_time 1 \<longrightarrow>
      wait_for_contract getCode time_time (Some t) = Some False)
   \<and> (wait_for_contract getCode time_time timeout = Some True \<longrightarrow>
        (\<exists>j. length (getCode j) \<noteq> 0))"
proof (intro conjI impI)
  assume "t \<noteq> 0 \<and> length (getCode 0) = 0 \<and> time_time 0 + t > time_time 1"
  then show "wait_for_contract getCode time_time (Some t) = Some False"
    unfolding wait_for_contract_def
    by (subst wait_loop.simps) (simp add: timeout_guard_def)
next
  assume "wait_for_contract getCode time_time timeout = Some True"
  then have "wait_loop getCode time_time timeout (time_time 0) 0 (getCode 0) (time_time 1)
      = Some True"
    by (simp add: wait_for_contract_def)
  from wait_loop_True [OF this] show "\<exists>j. length (getCode j) \<noteq> 0"
    by blast
qed

theorem wait_for_contract_gives_up_early_witness:
  "(10 :: real) \<noteq> 0
   \<and> length (mined_after_first_query 0) = 0
   \<and> ticking_clock 0 + 10 > ticking_clock 1
   \<and> wait_for_contract mined_after_first_query ticking_clock (Some 10) = Some False
   \<and> wait_for_contract mined_after_first_query ticking_clock None = Some True
   \<and> (\<exists>j. length (mined_after_first_query j) \<noteq> 0)"
proof -
  have pre: "(10 :: real) \<noteq> 0 \<and> length (mined_after_first_query 0) = 0
      \<and> ticking_clock 0 + 10 > ticking_clock 1"
    by (simp add: mined_after_first_query_def ticking_clock_def)
  have mined: "wait_for_contract mined_after_first_query ticking_clock None = Some True"
    unfolding wait_for_contract_def
    by (subst wait_loop.simps, simp add: timeout_guard_def mined_after_first_query_def,
        subst wait_loop.simps, simp add: mined_after_first_query_def)
  from wait_for_contract_gives_up_early
    [of 10 mined_after_first_query ticking_clock None] pre mined
  show ?thesis by blast
qed

section \<open>Properties of the channel ledger\<close>

lemma sum_list_filter_le:
  "sum_list (map f (filter P xs)) \<le> sum_list (map f xs)" for f :: "'a \<Rightarrow> nat"
  by (induction xs) auto

lemma apply_deposit_total: "total_deposit c \<le> total_deposit (apply_deposit c p n)"
  by (cases p) (auto simp: total_deposit_def)

lemma apply_deposit_frame:
  "own_balance_proof (apply_deposit c p n) = own_balance_proof c"
  "locked_amount (apply_deposit c p n) = locked_amount c"
  by (cases p; simp add: locked_amount_def)+

lemma no_overspend_deposit: "no_overspend c \<Longrightarrow> no_overspend (apply_deposit c p n)"
  using apply_deposit_total [of c p n]
  by (simp add: no_overspend_def apply_deposit_frame)

lemma no_overspend_add_lock: "add_lock c l = Inr c' \<Longrightarrow> no_overspend c'"
  by (auto simp: add_lock_def no_overspend_def locked_amount_def total_deposit_def
      split: if_splits)

lemma no_overspend_remove_lock:
  "no_overspend c \<Longrightarrow> remove_lock c h = Inr c' \<Longrightarrow> no_overspend c'"
  using sum_list_filter_le [of lk_amount "\<lambda>l. lk_hashlock l \<noteq> h" "pending_locks c"]
  by (auto simp: remove_lock_def no_overspend_def locked_amount_def total_deposit_def
      split: if_splits)

lemma no_overspend_balance_proof:
  "no_overspend c \<Longrightarrow> apply_balance_proof verify c proof sender' = Inr (c', delta) \<Longrightarrow>
   no_overspend c'"
  by (cases sender')
     (auto simp: apply_balance_proof_def no_overspend_def locked_amount_def
        total_deposit_def Let_def split: if_splits)

lemma no_overspend_step: "no_overspend c \<Longrightarrow> no_overspend (ledger_step verify c change)"
  by (cases change)
     (auto simp: ledger_step_def split: sum.splits
        intro: no_overspend_deposit no_overspend_add_lock no_overspend_remove_lock
          no_overspend_balance_proof)

lemma no_overspend_steps:
  "no_overspend c \<Longrightarrow> no_overspend (foldl (ledger_step verify) c changes)"
  by (induction changes arbitrary: c) (auto intro: no_overspend_step)

lemma no_overspend_opened:
  "no_overspend (channel_opened cid tok self partner settle reveal)"
  by (simp add: no_overspend_def channel_opened_def empty_proof_def locked_amount_def)

text \<open>
  Claim C1.  Every channel state reached from a newly opened channel by any
  sequence of deposits, lock additions, lock removals and balance proofs (each
  applied if the ledger accepts it and discarded otherwise) satisfies the
  no-overspend invariant: the transferred amount of the node's own recorded balance
  proof plus the sum of the amounts of all pending locks is at most
  \<open>own_deposit + partner_deposit\<close>.
\<close>

theorem no_overspend_reachable:
  "bp_transferred_amount
       (own_balance_proof
          (foldl (ledger_step verify) (channel_opened cid tok self partner settle reveal)
             changes))
     + sum_list (map lk_amount
         (pending_locks
            (foldl (ledger_step verify) (channel_opened cid tok self partner settle reveal)
               changes)))
   \<le> own_deposit
         (foldl (ledger_step verify) (channel_opened cid tok self partner settle reveal)
            changes)
       + partner_deposit
           (foldl (ledger_step verify) (channel_opened cid tok self partner settle reveal)
              changes)"
  using no_overspend_steps [OF no_overspend_opened, of verify cid tok self partner settle
      reveal changes]
  by (simp add: no_overspend_def locked_amount_def total_deposit_def)

lemma apply_balance_proof_accepted:
  assumes "apply_balance_proof verify c proof sender' = Inr (c', delta)"
  shows "bp_nonce proof > bp_nonce (recorded_proof c sender')"
    and "recorded_proof c' sender' = proof"
    and "verify proof sender'"
  using assms
  by (cases sender'; auto simp: apply_balance_proof_def Let_def split: if_splits)+

lemma apply_balance_proof_stale:
  "verify proof sender' \<Longrightarrow> bp_nonce proof \<le> bp_nonce (recorded_proof c sender') \<Longrightarrow>
   apply_balance_proof verify c proof sender' = Inl StaleNonce"
  by (simp add: apply_balance_proof_def Let_def)

lemma apply_balance_proof_not_greater:
  "bp_nonce proof \<le> bp_nonce (recorded_proof c sender') \<Longrightarrow>
   apply_balance_proof verify c proof sender' = Inl InvalidSignature
   \<or> apply_balance_proof verify c proof sender' = Inl StaleNonce"
  by (simp add: apply_balance_proof_def Let_def)

lemma rejected_proof_discarded:
  "apply_balance_proof verify c proof sender' = Inl e \<Longrightarrow>
   ledger_step verify c (ReceiveBalanceProof proof sender') = c"
  by (simp add: ledger_step_def)

text \<open>
  Claim C4.  \<open>apply_balance_proof\<close> accepts a proof only if its nonce is strictly
  greater than the nonce of the proof recorded for that sender on the channel (the
  last accepted one, since an accepted proof is recorded).  A proof whose nonce is
  not greater (out of order or replayed) is rejected, with \<open>StaleNonce\<close> when its
  signature verifies, and a rejected proof leaves the channel exactly as it was.
\<close>

theorem balance_proof_nonce_strictly_increases:
  "(apply_balance_proof verify c proof sender' = Inr (c', delta) \<longrightarrow>
      bp_nonce proof > bp_nonce (recorded_proof c sender')
      \<and> recorded_proof c' sender' = proof)
   \<and> (bp_nonce proof \<le> bp_nonce (recorded_proof c sender') \<longrightarrow>
        (apply_balance_proof verify c proof sender' = Inl InvalidSignature
         \<or> apply_balance_proof verify c proof sender' = Inl StaleNonce)
        \<and> (verify proof sender' \<longrightarrow>
             apply_balance_proof verify c proof sender' = Inl StaleNonce)
        \<and> ledger_step verify c (ReceiveBalanceProof proof sender') = c)
   \<and> (apply_balance_proof verify c proof sender' = Inl e \<longrightarrow>
        ledger_step verify c (ReceiveBalanceProof proof sender') = c)"
proof (intro conjI impI)
  assume "apply_balance_proof verify c proof sender' = Inr (c', delta)"
  then show "bp_nonce proof > bp_nonce (recorded_proof c sender')"
    and "recorded_proof c' sender' = proof"
    by (rule apply_balance_proof_accepted)+
next
  assume stale: "bp_nonce proof \<le> bp_nonce (recorded_proof c sender')"
  then show rejected: "apply_balance_proof verify c proof sender' = Inl InvalidSignature
      \<or> apply_balance_proof verify c proof sender' = Inl StaleNonce"
    by (rule apply_balance_proof_not_greater)
  then show "ledger_step verify c (ReceiveBalanceProof proof sender') = c"
    by (auto intro: rejected_proof_discarded)
  assume "verify proof sender'"
  then show "apply_balance_proof verify c proof sender' = Inl StaleNonce"
    using stale by (rule apply_balance_proof_stale)
next
  assume "apply_balance_proof verify c proof sender' = Inl e"
  then show "ledger_step verify c (ReceiveBalanceProof proof sender') = c"
    by (rule rejected_proof_discarded)
qed

theorem balance_proof_nonce_strictly_increases_witness:
  "apply_balance_proof (\<lambda>p s. True) funded_channel first_proof Self
      = Inr (funded_channel\<lparr>own_balance_proof := first_proof\<rparr>, 3)
   \<and> bp_nonce first_proof > bp_nonce (recorded_proof funded_channel Self)
   \<and> bp_nonce first_proof
        \<le> bp_nonce (recorded_proof (funded_channel\<lparr>own_balance_proof := first_proof\<rparr>) Self)
   \<and> apply_balance_proof (\<lambda>p s. True) (funded_channel\<lparr>own_balance_proof := first_proof\<rparr>)
        first_proof Self = Inl StaleNonce
   \<and> ledger_step (\<lambda>p s. True) (funded_channel\<lparr>own_balance_proof := first_proof\<rparr>)
        (ReceiveBalanceProof first_proof Self)
      = funded_channel\<lparr>own_balance_proof := first_proof\<rparr>"
proof -
  let ?verify = "\<lambda>(p :: balance_proof) (s :: participant). True"
  let ?c' = "funded_channel\<lparr>own_balance_proof := first_proof\<rparr>"
  have accepted: "apply_balance_proof ?verify funded_channel first_proof Self
      = Inr (?c', 3)"
    by (simp add: apply_balance_proof_def funded_channel_def first_proof_def
        channel_opened_def empty_proof_def locked_amount_def total_deposit_def)
  have replayed: "bp_nonce first_proof \<le> bp_nonce (recorded_proof ?c' Self)"
    by simp
  from balance_proof_nonce_strictly_increases
    [of ?verify funded_channel first_proof Self ?c' 3] accepted
  have "bp_nonce first_proof > bp_nonce (recorded_proof funded_channel Self)"
    by blast
  moreover from balance_proof_nonce_strictly_increases
    [of ?verify ?c' first_proof Self] replayed
  have "apply_balance_proof ?verify ?c' first_proof Self = Inl StaleNonce"
    and "ledger_step ?verify ?c' (ReceiveBalanceProof first_proof Self) = ?c'"
    by blast+
  ultimately show ?thesis using accepted replayed by blast
qed

section \<open>Properties of route selection\<close>

lemma first_route_Some:
  "first_route rs exclude required_balance = Some r \<longleftrightarrow>
     (\<exists>before after. rs = before @ r # after
        \<and> qualifies exclude required_balance r
        \<and> (\<forall>x \<in> set before. \<not> qualifies exclude required_balance x))"
proof (induction rs)
  case Nil
  then show ?case by simp
next
  case (Cons a rs)
  show ?case
  proof (cases "qualifies exclude required_balance a")
    case True
    have "(\<exists>before after. a # rs = before @ r # after
        \<and> qualifies exclude required_balance r
        \<and> (\<forall>x \<in> set before. \<not> qualifies exclude required_balance x)) \<longleftrightarrow> a = r"
    proof
      assume "\<exists>before after. a # rs = before @ r # after
        \<and> qualifies exclude required_balance r
        \<and> (\<forall>x \<in> set before. \<not> qualifies exclude required_balance x)"
      then obtain before after where split: "a # rs = before @ r # after"
        and none: "\<forall>x \<in> set before. \<not> qualifies exclude required_balance x"
        by blast
      show "a = r"
      proof (cases before)
        case Nil
        with split show ?thesis by simp
      next
        case (Cons b bs)
        with split have "a \<in> set before" by simp
        with none True show ?thesis by blast
      qed
    next
      assume "a = r"
      with True have "a # rs = [] @ r # rs \<and> qualifies exclude required_balance r
        \<and> (\<forall>x \<in> set []. \<not> qualifies exclude required_balance x)"
        by simp
      then show "\<exists>before after. a # rs = before @ r # after
        \<and> qualifies exclude required_balance r
        \<and> (\<forall>x \<in> set before. \<not> qualifies exclude required_balance x)"
        by blast
    qed
    with True show ?thesis by auto
  next
    case False
    have "(\<exists>before after. a # rs = before @ r # after
        \<and> qualifies exclude required_balance r
        \<and> (\<forall>x \<in> set before. \<not> qualifies exclude required_balance x)) \<longleftrightarrow>
      (\<exists>before after. rs = before @ r # after
        \<and> qualifies exclude required_balance r
        \<and> (\<forall>x \<in> set before. \<not> qualifies exclude required_balance x))"
      (is "?L \<longleftrightarrow> ?R")
    proof
      assume ?L
      then obtain before after where split: "a # rs = before @ r # after"
        and q: "qualifies exclude required_balance r"
        and none: "\<forall>x \<in> set before. \<not> qualifies exclude required_balance x"
        by blast
      show ?R
      proof (cases before)
        case Nil
        with split q False show ?thesis by simp
      next
        case (Cons b bs)
        with split none q have "rs = bs @ r # after
          \<and> qualifies exclude required_balance r
          \<and> (\<forall>x \<in> set bs. \<not> qualifies exclude required_balance x)"
          by simp
        then show ?thesis by blast
      qed
    next
      assume ?R
      then obtain before after where "rs = before @ r # after"
        and "qualifies exclude required_balance r"
        and "\<forall>x \<in> set before. \<not> qualifies exclude required_balance x"
        by blast
      with False have "a # rs = (a # before) @ r # after
        \<and> qualifies exclude required_balance r
        \<and> (\<forall>x \<in> set (a # before). \<not> qualifies exclude required_balance x)"
        by simp
      then show ?L by blast
    qed
    with False Cons.IH show ?thesis by simp
  qed
qed

lemma first_route_None:
  "first_route rs exclude required_balance = None \<longleftrightarrow>
     (\<forall>x \<in> set rs. \<not> qualifies exclude required_balance x)"
  by (induction rs) auto

lemma init_initiator_route:
  "init_initiator current_block margin channels tr routes = Inr (channels', st, events) \<Longrightarrow>
   ini_route st = next_route routes {} (tr_amount tr)"
  by (auto simp: init_initiator_def Let_def split: option.splits sum.splits)

lemma init_initiator_sends:
  "init_initiator current_block margin channels tr routes = Inr (channels', st, events) \<Longrightarrow>
   ini_route st = Some r \<Longrightarrow>
   ini_lifecycle st = RouteSelected
   \<and> events = [SendMediatedTransfer (rt_node_address r) (ini_transfer st)]"
  by (auto simp: init_initiator_def Let_def split: option.splits sum.splits)

text \<open>
  Claim C8.  \<open>next_route\<close> returns a route exactly when that route stands in
  \<open>RoutesState.available\<close> with no qualifying route before it (a route qualifies
  when it meets the required balance and is not excluded): the order the router
  supplied decides, the balances of the routes behind it play no part.  On
  \<open>ActionInitInitiator\<close> the initiator commits to exactly that route, with the
  amount of the transfer as the required balance and nothing excluded, and sends the
  mediated transfer to its peer.
\<close>

theorem initiator_first_fit_route:
  "(next_route routes exclude required_balance = Some r \<longleftrightarrow>
      (\<exists>before after. available routes = before @ r # after
         \<and> qualifies exclude required_balance r
         \<and> (\<forall>x \<in> set before. \<not> qualifies exclude required_balance x)))
   \<and> (init_initiator current_block margin channels tr routes = Inr (channels', st, events)
        \<and> ini_route st = Some r' \<longrightarrow>
        (\<exists>before after. available routes = before @ r' # after
           \<and> rt_available_balance r' \<ge> tr_amount tr
           \<and> (\<forall>x \<in> set before. rt_available_balance x < tr_amount tr))
        \<and> ini_lifecycle st = RouteSelected
        \<and> events = [SendMediatedTransfer (rt_node_address r') (ini_transfer st)])"
proof (intro conjI impI)
  show "next_route routes exclude required_balance = Some r \<longleftrightarrow>
      (\<exists>before after. available routes = before @ r # after
         \<and> qualifies exclude required_balance r
         \<and> (\<forall>x \<in> set before. \<not> qualifies exclude required_balance x))"
    unfolding next_route_def by (rule first_route_Some)
next
  assume run: "init_initiator current_block margin channels tr routes
      = Inr (channels', st, events) \<and> ini_route st = Some r'"
  then have "first_route (available routes) {} (tr_amount tr) = Some r'"
    using init_initiator_route [of current_block margin channels tr routes channels' st events]
    by (simp add: next_route_def)
  then show "\<exists>before after. available routes = before @ r' # after
      \<and> rt_available_balance r' \<ge> tr_amount tr
      \<and> (\<forall>x \<in> set before. rt_available_balance x < tr_amount tr)"
    unfolding first_route_Some by (simp add: qualifies_def not_le)
  from run show "ini_lifecycle st = RouteSelected"
    and "events = [SendMediatedTransfer (rt_node_address r') (ini_transfer st)]"
    using init_initiator_sends by blast+
qed

theorem initiator_first_fit_route_witness:
  "rt_available_balance route_small < rt_available_balance route_large
   \<and> next_route two_routes {} 5 = Some route_small
   \<and> (\<exists>before after. available two_routes = before @ route_small # after
         \<and> qualifies {} 5 route_small)
   \<and> (\<exists>channels' st events.
         init_initiator 100 10 [1 \<mapsto> channel_to_app3] transfer_of_5 two_routes
           = Inr (channels', st, events)
         \<and> ini_route st = Some route_small
         \<and> ini_lifecycle st = RouteSelected
         \<and> events = [SendMediatedTransfer ''app3'' (ini_transfer st)])"
proof -
  have larger: "rt_available_balance route_small < rt_available_balance route_large"
    by (simp add: route_small_def route_large_def)
  have chosen: "next_route two_routes {} 5 = Some route_small"
    by (simp add: next_route_def two_routes_def qualifies_def route_small_def)
  have "\<exists>channels' st events.
      init_initiator 100 10 [1 \<mapsto> channel_to_app3] transfer_of_5 two_routes
        = Inr (channels', st, events) \<and> ini_route st = Some route_small"
    by (simp add: init_initiator_def next_route_def two_routes_def qualifies_def
        route_small_def transfer_of_5_def channel_to_app3_def channel_opened_def
        empty_proof_def add_lock_def locked_amount_def total_deposit_def Let_def)
  then obtain channels' st events
    where run: "init_initiator 100 10 [1 \<mapsto> channel_to_app3] transfer_of_5 two_routes
        = Inr (channels', st, events) \<and> ini_route st = Some route_small"
    by blast
  from initiator_first_fit_route
    [of two_routes "{}" 5 route_small 100 10 "[1 \<mapsto> channel_to_app3]" transfer_of_5
      channels' st events route_small] chosen run
  have "(\<exists>before after. available two_routes = before @ route_small # after
         \<and> qualifies {} 5 route_small)"
    and "ini_lifecycle st = RouteSelected"
    and "events = [SendMediatedTransfer (rt_node_address route_small) (ini_transfer st)]"
    by blast+
  moreover have "rt_node_address route_small = ''app3''"
    by (simp add: route_small_def)
  ultimately show ?thesis using larger chosen run by auto
qed

section \<open>Properties of the mediator\<close>

lemma remove_lock_removed:
  "remove_lock c h = Inr c' \<Longrightarrow> h \<notin> lk_hashlock ` set (pending_locks c')"
  by (auto simp: remove_lock_def split: if_splits)

lemma forward_no_reveal:
  "mediator_forward env channels st from_expiration = Inr (channels', st', events) \<Longrightarrow>
   SendRevealSecret peer secret \<notin> set events"
  by (auto simp: mediator_forward_def Let_def split: option.splits sum.splits)

lemma acknowledge_no_reveal:
  "mediator_acknowledge env channels st proof = Inr (channels', st', events) \<Longrightarrow>
   SendRevealSecret peer secret \<notin> set events"
  by (auto simp: mediator_acknowledge_def split: option.splits sum.splits if_splits)

lemma block_advance_no_reveal:
  "mediator_block_advance env channels st n = Inr (channels', st', events) \<Longrightarrow>
   SendRevealSecret peer secret \<notin> set events"
  by (auto simp: mediator_block_advance_def split: option.splits if_splits
      dest: forward_no_reveal)

lemma reveal_secured:
  assumes "mediator_reveal env channels st secret sender' = Inr (channels', st', events)"
    and "SendRevealSecret peer secret' \<in> set events"
  shows "secured env channels' st' peer secret'"
proof -
  from assms obtain r where r: "med_route st = Some r"
    by (cases "med_route st") (auto simp: mediator_reveal_def)
  from assms r have fw: "med_lifecycle st = Forwarded" "sender' = rt_node_address r"
    and hash: "env_sha3 env secret = tr_hashlock (med_from_transfer st)"
    by (auto simp: mediator_reveal_def split: if_splits)
  from assms r fw hash obtain c where c: "channels (rt_channel_identifier r) = Some c"
    by (cases "channels (rt_channel_identifier r)") (auto simp: mediator_reveal_def)
  let ?h = "tr_hashlock (med_from_transfer st)"
  let ?proof = "unlock_proof env c ?h (tr_amount (med_from_transfer st))"
  from assms r fw hash c obtain c1 delta
    where "apply_balance_proof (env_verify env) c ?proof Self = Inr (c1, delta)"
    by (cases "apply_balance_proof (env_verify env) c ?proof Self")
       (auto simp: mediator_reveal_def Let_def)
  note ap = this
  from assms r fw hash c ap obtain c2 where rm: "remove_lock c1 ?h = Inr c2"
    by (cases "remove_lock c1 ?h") (auto simp: mediator_reveal_def Let_def)
  from assms r fw hash c ap rm
  have res: "channels' = channels(rt_channel_identifier r \<mapsto> c2)"
    "st' = st\<lparr>med_lifecycle := Revealing\<rparr>"
    "events = [SendBalanceProof (rt_node_address r) (rt_channel_identifier r) ?proof,
       SendRevealSecret (rt_node_address (med_from_route st)) secret]"
    by (auto simp: mediator_reveal_def Let_def)
  from res(3) assms(2) have "peer = rt_node_address (med_from_route st)" "secret' = secret"
    by auto
  with res r hash remove_lock_removed [OF rm] show ?thesis
    by (auto simp: secured_def)
qed

lemma mediate_secured:
  assumes "mediate env s change = Inr (s', events)"
    and "SendRevealSecret peer secret \<in> set events"
  shows "\<exists>st'. snd s' = Some st' \<and> secured env (fst s') st' peer secret"
  using assms
  apply (cases change; cases "snd s")
  apply (auto simp: mediate_def Let_def split: option.splits sum.splits
      dest: forward_no_reveal acknowledge_no_reveal block_advance_no_reveal reveal_secured)
  done

text \<open>
  Claim C2.  In every run of the mediator (any starting state, any log of state
  changes), at every step whose events contain \<open>SendRevealSecret\<close>, the state the
  step leads to has the outgoing unlock secured: the reveal goes to the upstream
  peer of \<open>from_route\<close>, the secret hashes to the hashlock of the transfer, and the
  lock with that hashlock has already been removed from the outgoing channel.  The
  reveal upstream never precedes the outgoing unlock.
\<close>

theorem mediator_reveals_after_unlock:
  assumes "(s', events) \<in> set (mediator_trace env s changes)"
    and "SendRevealSecret peer secret \<in> set events"
  shows "\<exists>st'. snd s' = Some st' \<and> secured env (fst s') st' peer secret"
  using assms
proof (induction changes arbitrary: s)
  case Nil
  then show ?case by simp
next
  case (Cons change changes)
  show ?case
  proof (cases "mediate env s change")
    case (Inl e)
    with Cons show ?thesis by simp
  next
    case (Inr res)
    obtain s1 evs where res: "res = (s1, evs)" by (cases res)
    with Inr Cons.prems(1) have "(s', events) = (s1, evs)
        \<or> (s', events) \<in> set (mediator_trace env s1 changes)"
      by simp
    then show ?thesis
    proof
      assume "(s', events) = (s1, evs)"
      with Inr res have "mediate env s change = Inr (s', events)" by simp
      from mediate_secured [OF this Cons.prems(2)] show ?thesis .
    next
      assume "(s', events) \<in> set (mediator_trace env s1 changes)"
      from Cons.IH [OF this Cons.prems(2)] show ?thesis .
    qed
  qed
qed


lemmas mediator_example_defs =
  mediator_log_def mediate_def mediator_forward_def mediator_reveal_def
  unlock_proof_def next_route_def qualifies_def add_lock_def remove_lock_def
  apply_balance_proof_def locked_amount_def total_deposit_def toy_env_def
  route_from_app0_def route_to_app2_def incoming_transfer_def mediator_channels_def
  channel_opened_def empty_proof_def Let_def

text \<open>
  The example run has three steps: the transfer is forwarded to App2, a reveal with
  the wrong secret is discarded without any event, and the reveal with the right
  secret unlocks the outgoing channel and sends the secret to App0.
\<close>

theorem mediator_reveals_after_unlock_witness:
  "\<exists>s' events st'.
     (s', events) \<in> set (mediator_trace toy_env (mediator_channels, None) mediator_log)
     \<and> SendRevealSecret ''app0'' ''secret'' \<in> set events
     \<and> snd s' = Some st'
     \<and> secured toy_env (fst s') st' ''app0'' ''secret''"
proof -
  let ?t = "mediator_trace toy_env (mediator_channels, None) mediator_log"
  have len: "length ?t = 3"
    by (simp add: mediator_example_defs)
  have sent: "SendRevealSecret ''app0'' ''secret'' \<in> set (snd (?t ! 2))"
    by (simp add: mediator_example_defs)
  from len have "?t ! 2 \<in> set ?t" by simp
  then have step: "(fst (?t ! 2), snd (?t ! 2)) \<in> set ?t" by simp
  from mediator_reveals_after_unlock [OF step sent] step sent
  show ?thesis by blast
qed

end
